theory Spec2Isabelle
  imports Main "HOL-Library.Word"
begin

section \<open>Shared vocabulary: simulated time and diagnostics\<close>

text \<open>
  SystemC's \<open>sc_time\<close> holds an unsigned 64-bit count of time-resolution units;
  \<open>SC_ZERO_TIME\<close> is the value 0 and \<open>sc_max_time()\<close> is the largest value.
\<close>

type_synonym sc_time = "64 word"

definition SC_ZERO_TIME :: sc_time where
  "SC_ZERO_TIME = 0"

definition sc_max_time :: sc_time where
  "sc_max_time = - 1"

text \<open>
  A report raised with \<open>SC_REPORT_FATAL(type, msg)\<close> ends the construction or the
  driver that raised it; it is the \<open>Inl\<close> branch of every fallible function below.
  \<open>Foreign\<close> stands for a failure of a collaborator whose code is not part of this
  development (a base-class constructor, the configuration loader).
  \<open>ConfigurationError\<close> and \<open>ProtocolViolation\<close> are the two fatal conditions of
  the refresh manager that the spec names without giving their text.
\<close>

datatype error =
    SC_FATAL string string
  | Foreign string
  | ConfigurationError
  | ProtocolViolation

section \<open>MemSpecDDR5: the placeholder memory specification\<close>

text \<open>Of \<open>MemoryType\<close>, the enumerator that the placeholder passes to its base class.\<close>

datatype MemoryType = DDR5

text \<open>
  \<open>MemSpecDDR5::MemSpecDDR5(json &memspec)\<close>: the base-class constructor
  \<open>MemSpec(memspec, MemoryType::DDR5, 0, 0, 0, 0, 0, 0, 0, 0)\<close> is defined elsewhere,
  so it is the parameter \<open>MemSpec\<close>; it runs first and may fail.
  The body then raises the fatal report unconditionally.
\<close>

definition MemSpecDDR5 ::
  "('json \<Rightarrow> MemoryType \<Rightarrow> 32 word list \<Rightarrow> error + 'base) \<Rightarrow> 'json \<Rightarrow> error + 'base" where
  "MemSpecDDR5 MemSpec memspec =
     (case MemSpec memspec DDR5 [0, 0, 0, 0, 0, 0, 0, 0] of
        Inl e \<Rightarrow> Inl e
      | Inr base \<Rightarrow> Inl (SC_FATAL ''MemSpecDDR5'' ''DDR5 model not included!''))"

text \<open>
  The three queries ignore the object, the command and the payload.
  \<open>TimeInterval()\<close> is the default-constructed interval, modelled as the pair of
  zero times.
\<close>

definition getExecutionTime :: "'base \<Rightarrow> 'command \<Rightarrow> 'payload \<Rightarrow> sc_time" where
  "getExecutionTime this command payload = SC_ZERO_TIME"

definition getIntervalOnDataStrobe :: "'base \<Rightarrow> 'command \<Rightarrow> sc_time \<times> sc_time" where
  "getIntervalOnDataStrobe this command = (SC_ZERO_TIME, SC_ZERO_TIME)"

definition getSimMemSizeInBytes :: "'base \<Rightarrow> 64 word" where
  "getSimMemSizeInBytes this = 0"

section \<open>The simulator driver (\<open>sc_main\<close>)\<close>

subsection \<open>Paths\<close>

text \<open>
  \<open>std::filesystem::path\<close> on a POSIX host, in generic format: a string whose
  separator is the slash. \<open>path_append p q\<close> is \<open>p / q\<close>: an absolute \<open>q\<close>
  replaces \<open>p\<close>; otherwise a separator is inserted when \<open>p\<close> has a filename.
  \<open>filename\<close> is what follows the last separator. \<open>extension\<close> starts at the
  rightmost period of the filename; the filenames \<open>.\<close> and \<open>..\<close>, a filename
  without a period and a filename whose only period is its first character have the
  empty extension.
\<close>

type_synonym path = string

definition path_append :: "path \<Rightarrow> path \<Rightarrow> path" where
  "path_append p q =
     (if q \<noteq> [] \<and> hd q = CHR ''/'' then q
      else if p \<noteq> [] \<and> last p \<noteq> CHR ''/'' then p @ ''/'' @ q
      else p @ q)"

definition filename :: "path \<Rightarrow> string" where
  "filename p = rev (takeWhile (\<lambda>c. c \<noteq> CHR ''/'') (rev p))"

definition extension :: "path \<Rightarrow> string" where
  "extension p =
     (let f = filename p; suffix = rev (takeWhile (\<lambda>c. c \<noteq> CHR ''.'') (rev f)) in
      if f = ''.'' \<or> f = ''..'' then []
      else if CHR ''.'' \<notin> set f then []
      else if length suffix + 1 = length f then []
      else CHR ''.'' # suffix)"

subsection \<open>Configuration and initiators\<close>

text \<open>
  The alternatives of the \<open>tracesetup\<close> variant. Of each configuration type only the
  fields that \<open>sc_main\<close> reads are kept; a traffic generator's configuration is
  handed on whole and is kept as an opaque string.
\<close>

datatype initiator_config =
    TrafficGenerator string
  | TrafficGeneratorStateMachine string
  | TracePlayer (tp_name: string) (tp_clkMhz: nat)
  | RowHammer (rh_name: string) (rh_numRequests: nat) (rh_clkMhz: nat) (rh_rowIncrement: nat)

record Configuration =
  tracesetup :: "initiator_config list option"
  DatabaseRecording :: "bool option"
  SimulationProgressBar :: "bool option"

definition value_or :: "'a option \<Rightarrow> 'a \<Rightarrow> 'a" where
  "value_or x d = (case x of None \<Rightarrow> d | Some v \<Rightarrow> v)"

datatype TraceType = Absolute | Relative

text \<open>
  What the visitor constructs: a \<open>TrafficGenerator\<close> (configuration, memory size,
  default data length), a \<open>SimpleInitiator<StlPlayer>\<close> (name, trace path, clock,
  default data length, trace type) or a \<open>SimpleInitiator<RowHammer>\<close> (name, number
  of requests, clock, row increment, default data length). Every one of them receives the
  same two callbacks, \<open>transactionFinished\<close> and \<open>termianteInitiator\<close>.
\<close>

datatype initiator =
    TrafficGeneratorI initiator_config "64 word" "32 word"
  | StlPlayerI string path nat "32 word" TraceType
  | RowHammerI string nat nat nat "32 word"

definition TRACE_DIRECTORY :: path where
  "TRACE_DIRECTORY = ''traces''"

definition build_initiator ::
  "path \<Rightarrow> 64 word \<Rightarrow> 32 word \<Rightarrow> initiator_config \<Rightarrow> error + initiator" where
  "build_initiator resourceDirectory memorySize defaultDataLength config =
     (case config of
        TrafficGenerator c \<Rightarrow> Inr (TrafficGeneratorI config memorySize defaultDataLength)
      | TrafficGeneratorStateMachine c \<Rightarrow>
          Inr (TrafficGeneratorI config memorySize defaultDataLength)
      | TracePlayer name clkMhz \<Rightarrow>
          (let tracePath = path_append (path_append resourceDirectory TRACE_DIRECTORY) name;
               ext = extension tracePath in
           if ext = ''.stl'' then
             Inr (StlPlayerI name tracePath clkMhz defaultDataLength Absolute)
           else if ext = ''.rstl'' then
             Inr (StlPlayerI name tracePath clkMhz defaultDataLength Relative)
           else Inl (SC_FATAL ''Simulator'' (ext @ '' is not a valid trace format.'')))
      | RowHammer name numRequests clkMhz rowIncrement \<Rightarrow>
          Inr (RowHammerI name numRequests clkMhz rowIncrement defaultDataLength))"

subsection \<open>Driver state, callbacks and the event loop\<close>

text \<open>
  What the driver does that can be observed from outside, in the order it does it.
\<close>

datatype effect =
    NewDRAMSysRecordable
  | NewDRAMSys
  | NewMemoryManager bool
  | NewInitiator initiator
  | Bind initiator
  | SetStopMode
  | ScStart
  | ScStop
  | SC_WARNING string string
  | LoadBar "64 word" "64 word"
  | Cout string

text \<open>
  The locals of \<open>sc_main\<close> that the two callbacks capture by reference, with the
  kernel's stop flag (\<open>sc_stop()\<close> sets it; after \<open>sc_start()\<close> has returned,
  \<open>sc_end_of_simulation_invoked()\<close> reads it) and the log of effects.
  \<open>terminatedInitiators\<close> is an \<open>unsigned int\<close>, the two transaction counters are
  \<open>uint64_t\<close>.
\<close>

record driver =
  initiators :: "initiator list"
  terminatedInitiators :: "32 word"
  totalTransactions :: "64 word"
  transactionsFinished :: "64 word"
  progressBar :: bool
  stop_requested :: bool
  log :: "effect list"

definition emit :: "effect \<Rightarrow> driver \<Rightarrow> driver" where
  "emit e d = d\<lparr>log := log d @ [e]\<rparr>"

definition sc_stop :: "driver \<Rightarrow> driver" where
  "sc_stop d = emit ScStop (d\<lparr>stop_requested := True\<rparr>)"

text \<open>
  The lambda \<open>termianteInitiator\<close>: the comparison promotes the \<open>unsigned int\<close> to
  \<open>size_t\<close>, so it compares the numbers.
\<close>

definition termianteInitiator :: "driver \<Rightarrow> driver" where
  "termianteInitiator d =
     (let d' = d\<lparr>terminatedInitiators := terminatedInitiators d + 1\<rparr> in
      if unat (terminatedInitiators d') = length (initiators d') then sc_stop d' else d')"

definition transactionFinished :: "driver \<Rightarrow> driver" where
  "transactionFinished d =
     (let d' = d\<lparr>transactionsFinished := transactionsFinished d + 1\<rparr> in
      if progressBar d' then emit (LoadBar (transactionsFinished d') (totalTransactions d')) d'
      else d')"

text \<open>
  The event loop is the SystemC kernel running the initiators' processes, whose code is
  not part of this development. What reaches the driver is the sequence of callback
  invocations they make, delta cycle by delta cycle. \<open>sc_main\<close> sets the stop mode
  \<open>SC_STOP_FINISH_DELTA\<close>: the callbacks of the delta cycle in which \<open>sc_stop()\<close> is
  called are all still delivered, then \<open>sc_start()\<close> returns; it also returns when no
  delta cycle is left.
\<close>

datatype sim_event = InitiatorTerminates | TransactionFinishes

definition callback :: "sim_event \<Rightarrow> driver \<Rightarrow> driver" where
  "callback ev d =
     (case ev of InitiatorTerminates \<Rightarrow> termianteInitiator d
               | TransactionFinishes \<Rightarrow> transactionFinished d)"

fun run_delta :: "sim_event list \<Rightarrow> driver \<Rightarrow> driver" where
  "run_delta [] d = d"
| "run_delta (ev # evs) d = run_delta evs (callback ev d)"

fun sc_start :: "sim_event list list \<Rightarrow> driver \<Rightarrow> driver" where
  "sc_start [] d = d"
| "sc_start (delta # deltas) d =
     (let d' = run_delta delta d in
      if stop_requested d' then d' else sc_start deltas d')"

text \<open>The number of completion signals in a run of the event loop.\<close>

definition completions :: "sim_event list list \<Rightarrow> nat" where
  "completions deltas = length (filter (\<lambda>ev. ev = InitiatorTerminates) (concat deltas))"

subsection \<open>The surroundings of \<open>sc_main\<close>\<close>

text \<open>
  What \<open>sc_main\<close> reads from the subsystem it has built, and the parts of its
  surroundings that decide its run: the build-time macro \<open>DRAMSYS_RESOURCE_DIR\<close>,
  the configuration loader, the subsystem's constructor (both may fail), the number of
  requests an initiator announces, the callbacks the simulation makes, and the text
  \<open>std::to_string\<close> gives for the elapsed seconds.
\<close>

record dramsys_view =
  storeModeIsStore :: bool
  simMemSizeInBytes :: "64 word"
  defaultBytesPerBurst :: "32 word"

record world =
  DRAMSYS_RESOURCE_DIR :: path
  from_path :: "path \<Rightarrow> path \<Rightarrow> error + Configuration"
  newDRAMSys :: "bool \<Rightarrow> Configuration \<Rightarrow> error + dramsys_view"
  totalRequests :: "initiator \<Rightarrow> 64 word"
  events :: "sim_event list list"
  elapsed :: string

subsection \<open>\<open>sc_main\<close>\<close>

text \<open>\<open>argv\<close> holds the program name first, so \<open>argc\<close> is its length.\<close>

definition resourceDirectory_of :: "world \<Rightarrow> string list \<Rightarrow> path" where
  "resourceDirectory_of w argv =
     (if 3 \<le> length argv then argv ! 2 else DRAMSYS_RESOURCE_DIR w)"

definition baseConfig_of :: "world \<Rightarrow> string list \<Rightarrow> path" where
  "baseConfig_of w argv =
     (if 2 \<le> length argv then argv ! 1
      else path_append (resourceDirectory_of w argv) ''ddr4-example.json'')"

text \<open>
  The loop over \<open>tracesetup\<close>: build the initiator (a fatal report leaves the loop
  with what has been done so far), add its requests to the total, bind it, append it.
\<close>

fun build_loop ::
  "(initiator \<Rightarrow> 64 word) \<Rightarrow> path \<Rightarrow> dramsys_view \<Rightarrow> initiator_config list \<Rightarrow> driver
     \<Rightarrow> driver \<times> error option" where
  "build_loop requests resourceDirectory dramSys [] d = (d, None)"
| "build_loop requests resourceDirectory dramSys (initiator_config # rest) d =
     (case build_initiator resourceDirectory (simMemSizeInBytes dramSys)
             (defaultBytesPerBurst dramSys) initiator_config of
        Inl e \<Rightarrow> (d, Some e)
      | Inr i \<Rightarrow>
          build_loop requests resourceDirectory dramSys rest
            ((emit (Bind i) (emit (NewInitiator i) d))
               \<lparr>initiators := initiators d @ [i],
                totalTransactions := totalTransactions d + requests i\<rparr>))"

text \<open>From the start of the simulation to the return of \<open>sc_main\<close>.\<close>

definition after_sc_start :: "string \<Rightarrow> driver \<Rightarrow> driver" where
  "after_sc_start elapsed_seconds d =
     (let d' = (if \<not> stop_requested d
                then sc_stop (emit (SC_WARNING ''sc_main''
                       ''Simulation stopped without explicit sc_stop()'') d)
                else d)
      in emit (Cout (''Simulation took '' @ elapsed_seconds @ '' seconds.'')) d')"

definition simulate :: "world \<Rightarrow> driver \<Rightarrow> effect list \<times> (error + int)" where
  "simulate w d =
     (let d1 = sc_start (events w) (emit ScStart (emit SetStopMode d));
          d2 = after_sc_start (elapsed w) d1
      in (log d2, Inr 0))"

definition initial_driver :: "Configuration \<Rightarrow> bool \<Rightarrow> dramsys_view \<Rightarrow> driver" where
  "initial_driver configuration recordable dramSys =
     \<lparr>initiators = [], terminatedInitiators = 0, totalTransactions = 0,
      transactionsFinished = 0,
      progressBar = value_or (SimulationProgressBar configuration) False,
      stop_requested = False,
      log = [if recordable then NewDRAMSysRecordable else NewDRAMSys,
             NewMemoryManager (storeModeIsStore dramSys)]\<rparr>"

definition sc_main :: "world \<Rightarrow> string list \<Rightarrow> effect list \<times> (error + int)" where
  "sc_main w argv =
     (let resourceDirectory = resourceDirectory_of w argv;
          baseConfig = baseConfig_of w argv in
      case from_path w baseConfig resourceDirectory of
        Inl e \<Rightarrow> ([], Inl e)
      | Inr configuration \<Rightarrow>
          (case tracesetup configuration of
             None \<Rightarrow> ([], Inl (SC_FATAL ''Simulator'' ''No traffic initiators specified''))
           | Some setups \<Rightarrow>
               (let recordable = value_or (DatabaseRecording configuration) False in
                case newDRAMSys w recordable configuration of
                  Inl e \<Rightarrow> ([], Inl e)
                | Inr dramSys \<Rightarrow>
                    (case build_loop (totalRequests w) resourceDirectory dramSys setups
                            (initial_driver configuration recordable dramSys) of
                       (d, Some e) \<Rightarrow> (log d, Inl e)
                     | (d, None) \<Rightarrow> simulate w d))))"

subsection \<open>What a constructed player must satisfy\<close>

text \<open>
  A trace player agrees with its file when the extension of its trace path is
  \<open>.stl\<close> and it reads absolute times, or \<open>.rstl\<close> and it reads relative times.
\<close>

definition player_matches_extension :: "initiator \<Rightarrow> bool" where
  "player_matches_extension i =
     (case i of
        StlPlayerI name tracePath clkMhz dataLength traceType \<Rightarrow>
          (extension tracePath = ''.stl'' \<and> traceType = Absolute) \<or>
          (extension tracePath = ''.rstl'' \<and> traceType = Relative)
      | _ \<Rightarrow> True)"

subsection \<open>Example surroundings\<close>

text \<open>
  A loader that knows two configuration files, a subsystem with a kilobyte of memory and
  64-byte bursts, and a simulation in which only one of the two initiators finishes.
\<close>

definition example_world :: world where
  "example_world =
     \<lparr>DRAMSYS_RESOURCE_DIR = ''res'',
      from_path = (\<lambda>baseConfig resourceDirectory.
        if baseConfig = ''res/ddr4-example.json'' then
          Inr \<lparr>tracesetup = Some [TracePlayer ''a.stl'' 100, RowHammer ''hammer'' 10 100 1],
               DatabaseRecording = None, SimulationProgressBar = Some True\<rparr>
        else if baseConfig = ''empty.json'' then
          Inr \<lparr>tracesetup = None, DatabaseRecording = None, SimulationProgressBar = None\<rparr>
        else Inl (Foreign ''cannot load configuration'')),
      newDRAMSys = (\<lambda>recordable configuration.
        Inr \<lparr>storeModeIsStore = False, simMemSizeInBytes = 1024, defaultBytesPerBurst = 64\<rparr>),
      totalRequests = (\<lambda>i. 5),
      events = [[TransactionFinishes], [InitiatorTerminates, TransactionFinishes]],
      elapsed = ''0.5''\<rparr>"

text \<open>The same surroundings with a simulation in which both initiators finish.\<close>

definition example_world_complete :: world where
  "example_world_complete =
     example_world\<lparr>events := [[TransactionFinishes, InitiatorTerminates],
                               [InitiatorTerminates, TransactionFinishes]]\<rparr>"

definition example_driver :: driver where
  "example_driver =
     \<lparr>initiators = [RowHammerI ''hammer'' 10 100 1 64,
                    StlPlayerI ''a.stl'' ''res/traces/a.stl'' 100 64 Absolute],
      terminatedInitiators = 0, totalTransactions = 20, transactionsFinished = 0,
      progressBar = False, stop_requested = False, log = []\<rparr>"

section \<open>RefreshManagerAllBank: the per-rank refresh state machine\<close>

subsection \<open>The class as declared in \<open>RefreshManagerAllBank.h\<close>\<close>

text \<open>
  Modelled from the spec: the enumeration \<open>Command\<close>, whose declaration is missing
  (the header only uses \<open>Command::NOP\<close>). The spec's data model lists its values:
  ACTIVATE, PRECHARGE, READ, WRITE, REFRESH_ALL_BANK, REFRESH_SINGLE_BANK,
  POWER_DOWN_ENTRY/EXIT, NOP.
\<close>

datatype Command =
    NOP
  | ACTIVATE
  | PRECHARGE
  | READ
  | WRITE
  | REFRESH_ALL_BANK
  | REFRESH_SINGLE_BANK
  | POWER_DOWN_ENTRY
  | POWER_DOWN_EXIT

text \<open>\<open>enum class State {Regular, Pulledin}\<close>.\<close>

datatype State = Regular | Pulledin

text \<open>
  The data members of the class. \<open>activatedBanks\<close> is \<open>unsigned\<close>;
  \<open>flexibilityCounter\<close>, \<open>maxPostponed\<close> and \<open>maxPulledin\<close> are \<open>int\<close> and are
  kept as mathematical integers. The references to the collaborators are replaced by
  what is read through them: \<open>refreshInterval\<close> is the nominal all-bank refresh
  interval of \<open>memSpec\<close>; the bank machines' activation count and the power-down
  manager's sleep state arrive as arguments of \<open>evaluate\<close>. \<open>refreshPayload\<close>
  carries no state of its own and is left out.
\<close>

record RefreshManagerAllBank =
  state :: State
  refreshInterval :: sc_time
  timeForNextTrigger :: sc_time
  nextCommand :: Command
  activatedBanks :: "32 word"
  flexibilityCounter :: int
  maxPostponed :: int
  maxPulledin :: int
  sleeping :: bool
  refreshManagement :: bool

text \<open>
  The default member initialisers of the header: \<open>state = State::Regular\<close>,
  \<open>timeForNextTrigger = sc_max_time()\<close>, \<open>nextCommand = Command::NOP\<close>,
  \<open>activatedBanks = 0\<close>, \<open>flexibilityCounter = 0\<close>, \<open>sleeping = false\<close>. The
  constant members come from the constructor.
\<close>

definition member_initialisers :: "int \<Rightarrow> int \<Rightarrow> bool \<Rightarrow> sc_time \<Rightarrow> RefreshManagerAllBank" where
  "member_initialisers postponed pulledin management interval =
     \<lparr>state = Regular, refreshInterval = interval, timeForNextTrigger = sc_max_time,
      nextCommand = NOP, activatedBanks = 0, flexibilityCounter = 0,
      maxPostponed = postponed, maxPulledin = pulledin, sleeping = False,
      refreshManagement = management\<rparr>"

subsection \<open>The member functions, from the spec\<close>

text \<open>
  The header declares the constructor and the four operations; their bodies
  (\<open>RefreshManagerAllBank.cpp\<close>) are missing. Each definition below follows the
  sentences of section 4.2 of the spec that it quotes.
\<close>

text \<open>
  Modelled from the spec: the constructor \<open>RefreshManagerAllBank::RefreshManagerAllBank\<close>.
  "Initial state: Regular, counter = 0. Construction with non-positive
  \<open>maxPostponed\<close>/\<open>maxPulledin\<close> is a configuration error reported at build time."
  The first deadline is an argument: the spec's scenario A has it one interval after the
  start, the header's initialiser is the maximal time.
\<close>

definition new_RefreshManagerAllBank ::
  "int \<Rightarrow> int \<Rightarrow> bool \<Rightarrow> sc_time \<Rightarrow> sc_time \<Rightarrow> error + RefreshManagerAllBank" where
  "new_RefreshManagerAllBank postponed pulledin management interval firstDeadline =
     (if postponed \<le> 0 \<or> pulledin \<le> 0 then Inl ConfigurationError
      else Inr ((member_initialisers postponed pulledin management interval)
                  \<lparr>timeForNextTrigger := firstDeadline\<rparr>))"

text \<open>
  Modelled from the spec: \<open>getNextCommand\<close>. "Returns the cached proposal (NOP if
  none due)." The call returns the command with the manager, which it leaves as it is.
\<close>

definition getNextCommand :: "RefreshManagerAllBank \<Rightarrow> Command \<times> RefreshManagerAllBank" where
  "getNextCommand m = (nextCommand m, m)"

text \<open>
  Modelled from the spec: \<open>getTimeForNextTrigger\<close>. "Earliest time the decision
  might change; maximum value when nothing is outstanding."
\<close>

definition getTimeForNextTrigger :: "RefreshManagerAllBank \<Rightarrow> sc_time \<times> RefreshManagerAllBank" where
  "getTimeForNextTrigger m = (timeForNextTrigger m, m)"

text \<open>
  Modelled from the spec: the first step of \<open>evaluate\<close>. "PulledIn \<open>\<rightarrow>\<close> Regular once
  the rank's next nominal deadline is reached, treating the early refresh as having
  repaid that deadline": the state returns to Regular and the deadline so repaid is
  replaced by the one an interval later.
\<close>

definition repay_deadline :: "sc_time \<Rightarrow> RefreshManagerAllBank \<Rightarrow> RefreshManagerAllBank" where
  "repay_deadline now m =
     (if state m = Pulledin \<and> timeForNextTrigger m \<le> now
      then m\<lparr>state := Regular, timeForNextTrigger := timeForNextTrigger m + refreshInterval m\<rparr>
      else m)"

text \<open>
  Modelled from the spec: the condition under which \<open>evaluate\<close> takes a deadline as
  due. "The next mandatory all-bank-refresh deadline is reached or passed": what is left
  due at time \<open>now\<close> once a pulled-in refresh has repaid its deadline.
\<close>

definition deadline_due :: "sc_time \<Rightarrow> RefreshManagerAllBank \<Rightarrow> bool" where
  "deadline_due now m \<longleftrightarrow> timeForNextTrigger (repay_deadline now m) \<le> now"

text \<open>
  Modelled from the spec: \<open>evaluate\<close>. "Pure re-derivation of the manager's decision
  from SimulatedTime, ActivatedBanks, SleepFlag, State, FlexibilityCounter; caches the
  resulting proposed command and next-trigger time." The simulated time \<open>now\<close>, the
  activation count \<open>banks\<close> and the sleep flag \<open>asleep\<close> are read from the
  surroundings; \<open>pull\<close> is the manager's free choice to pull a refresh in ("an
  optimization, never mandatory"). The decision algorithm of the spec:

  "When the next mandatory all-bank-refresh deadline is reached or passed:
  if ActivatedBanks == 0 and SleepFlag == false: propose REFRESH_ALL_BANK.
  Else: the command cannot issue now. If refresh-management flexibility is enabled and
  postponement credit remains, consume one unit of postponement credit, propose NOP, and
  retain the deadline as still due for the next round. If no postponement credit remains,
  this is a fatal protocol violation, reported upward, not retried.
  Outside a due deadline, if flexibility is enabled and conditions favor it (rank idle,
  pull-in credit available), the manager may optionally [...] propose an early
  REFRESH_ALL_BANK."

  The counter is the spec's "bounded signed ledger" with
  \<open>-maxPostponed \<le> counter \<le> maxPulledin\<close>: a postponement takes it one down, a
  pulled-in refresh one up, so postponement credit remains while it is above
  \<open>-maxPostponed\<close> and pull-in credit is available while it is below \<open>maxPulledin\<close>.
  With flexibility disabled no credit can be used, which leaves the fatal report. A rank
  that sleeps is not idle (section 4.4: no command that needs wakefulness is proposed
  without the sleep state having been checked). The wake-up request that goes to the
  power-down manager changes nothing in the refresh manager and is not modelled.
\<close>

definition evaluate ::
  "sc_time \<Rightarrow> 32 word \<Rightarrow> bool \<Rightarrow> bool \<Rightarrow> RefreshManagerAllBank \<Rightarrow> error + RefreshManagerAllBank" where
  "evaluate now banks asleep pull m =
     (let m1 = repay_deadline now
                 (m\<lparr>activatedBanks := banks, sleeping := asleep, nextCommand := NOP\<rparr>) in
      if timeForNextTrigger m1 \<le> now then
        if activatedBanks m1 = 0 \<and> \<not> sleeping m1 then
          Inr (m1\<lparr>nextCommand := REFRESH_ALL_BANK\<rparr>)
        else if refreshManagement m1 \<and> - maxPostponed m1 < flexibilityCounter m1 then
          Inr (m1\<lparr>flexibilityCounter := flexibilityCounter m1 - 1\<rparr>)
        else Inl ProtocolViolation
      else if pull \<and> refreshManagement m1 \<and> state m1 = Regular \<and> activatedBanks m1 = 0 \<and>
              \<not> sleeping m1 \<and> flexibilityCounter m1 < maxPulledin m1 then
        Inr (m1\<lparr>nextCommand := REFRESH_ALL_BANK\<rparr>)
      else Inr m1)"

text \<open>
  Modelled from the spec: \<open>update\<close>. "Informs the manager which command actually won
  arbitration this round [...]. Must reconcile internal counters strictly against the
  committed command, never assume its own proposal executed unless \<open>command\<close> equals
  it." "Regular \<open>\<rightarrow>\<close> PulledIn on a credit-consuming early issuance (confirmed via
  \<open>update\<close>)", "never on a nominally-due refresh". A committed refresh that was due
  moves the deadline on by one interval (scenario A: refreshes at 100, 200, 300, ...); a
  committed refresh ahead of the deadline takes one unit of pull-in credit, which has
  to be there to be taken, and enters PulledIn. \<open>now\<close> is the simulated time of the
  round, the kernel's clock.
\<close>

definition update :: "sc_time \<Rightarrow> Command \<Rightarrow> RefreshManagerAllBank \<Rightarrow> RefreshManagerAllBank" where
  "update now command m =
     (if command = REFRESH_ALL_BANK \<and> nextCommand m = REFRESH_ALL_BANK then
        if timeForNextTrigger m \<le> now then
          m\<lparr>timeForNextTrigger := timeForNextTrigger m + refreshInterval m\<rparr>
        else if state m = Regular \<and> flexibilityCounter m < maxPulledin m then
          m\<lparr>state := Pulledin, flexibilityCounter := flexibilityCounter m + 1\<rparr>
        else m
      else m)"

subsection \<open>Reachable states\<close>

text \<open>
  A call of one of the four operations, with what it reads from its surroundings, and
  the run of a sequence of calls; a fatal report ends the run.
\<close>

datatype call =
    Evaluate sc_time "32 word" bool bool
  | GetNextCommand
  | Update sc_time Command
  | GetTimeForNextTrigger

fun step :: "call \<Rightarrow> RefreshManagerAllBank \<Rightarrow> error + RefreshManagerAllBank" where
  "step (Evaluate now banks asleep pull) m = evaluate now banks asleep pull m"
| "step GetNextCommand m = Inr (snd (getNextCommand m))"
| "step (Update now command) m = Inr (update now command m)"
| "step GetTimeForNextTrigger m = Inr (snd (getTimeForNextTrigger m))"

fun run :: "call list \<Rightarrow> RefreshManagerAllBank \<Rightarrow> error + RefreshManagerAllBank" where
  "run [] m = Inr m"
| "run (c # cs) m = (case step c m of Inl e \<Rightarrow> Inl e | Inr m' \<Rightarrow> run cs m')"

subsection \<open>The two invariants, and an example manager\<close>

text \<open>
  The counter stays within the two credit bounds; a cached all-bank refresh is legal
  when no bank is activated and the rank is awake.
\<close>

definition counter_in_bounds :: "RefreshManagerAllBank \<Rightarrow> bool" where
  "counter_in_bounds m \<longleftrightarrow>
     - maxPostponed m \<le> flexibilityCounter m \<and> flexibilityCounter m \<le> maxPulledin m"

definition proposal_legal :: "RefreshManagerAllBank \<Rightarrow> bool" where
  "proposal_legal m \<longleftrightarrow>
     (nextCommand m = REFRESH_ALL_BANK \<longrightarrow> activatedBanks m = 0 \<and> \<not> sleeping m)"

text \<open>
  A manager with a refresh interval of 100 time units, its first deadline at 100, two
  units of postponement credit and one unit of pull-in credit, as the constructor
  returns it.
\<close>

definition example_manager :: RefreshManagerAllBank where
  "example_manager =
     \<lparr>state = Regular, refreshInterval = 100, timeForNextTrigger = 100,
      nextCommand = NOP, activatedBanks = 0, flexibilityCounter = 0,
      maxPostponed = 2, maxPulledin = 1, sleeping = False, refreshManagement = True\<rparr>"

section \<open>Properties of MemSpecDDR5\<close>

lemma MemSpecDDR5_never_constructs: "MemSpecDDR5 MemSpec memspec \<noteq> Inr obj"
  by (simp add: MemSpecDDR5_def split: sum.split)

text \<open>
  Claim C6. Constructing the DDR5 memory specification never yields an object: once the
  base-class constructor has returned, the constructor body raises the fatal report
  \<open>MemSpecDDR5: DDR5 model not included!\<close>. Should the queries be reached on such an
  object all the same, \<open>getExecutionTime\<close> is the zero duration for every command and
  payload and \<open>getSimMemSizeInBytes\<close> is 0.
\<close>

theorem MemSpecDDR5_fatal_and_zero_queries:
  "(\<forall>obj. MemSpecDDR5 MemSpec memspec \<noteq> Inr obj) \<and>
   (\<forall>base. MemSpec memspec DDR5 [0, 0, 0, 0, 0, 0, 0, 0] = Inr base \<longrightarrow>
      MemSpecDDR5 MemSpec memspec
        = Inl (SC_FATAL ''MemSpecDDR5'' ''DDR5 model not included!'')) \<and>
   getExecutionTime this command payload = SC_ZERO_TIME \<and>
   unat (getExecutionTime this command payload) = 0 \<and>
   getSimMemSizeInBytes this = 0"
proof -
  have "\<forall>base. MemSpec memspec DDR5 [0, 0, 0, 0, 0, 0, 0, 0] = Inr base \<longrightarrow>
      MemSpecDDR5 MemSpec memspec
        = Inl (SC_FATAL ''MemSpecDDR5'' ''DDR5 model not included!'')"
    by (simp add: MemSpecDDR5_def)
  moreover have "getExecutionTime this command payload = SC_ZERO_TIME"
    and "unat (getExecutionTime this command payload) = 0"
    and "getSimMemSizeInBytes this = 0"
    by (simp_all add: getExecutionTime_def SC_ZERO_TIME_def getSimMemSizeInBytes_def)
  ultimately show ?thesis
    using MemSpecDDR5_never_constructs [of MemSpec memspec] by blast
qed

theorem MemSpecDDR5_fatal_and_zero_queries_witness:
  "MemSpecDDR5 (\<lambda>j t zs. Inr (j, t, zs)) ''{}''
     = (Inl (SC_FATAL ''MemSpecDDR5'' ''DDR5 model not included!'')
        :: error + (string \<times> MemoryType \<times> 32 word list))"
  using MemSpecDDR5_fatal_and_zero_queries
    [of "\<lambda>j t zs. Inr (j, t, zs)" "''{}''" "()" "()" "()"]
  by simp

section \<open>Properties of the driver\<close>

subsection \<open>The termination callback and the event loop\<close>

lemma callback_count:
  assumes "unat (terminatedInitiators d) = t"
    and "t + length (filter (\<lambda>e. e = InitiatorTerminates) [ev]) < 2 ^ 32"
  shows "unat (terminatedInitiators (callback ev d))
           = t + length (filter (\<lambda>e. e = InitiatorTerminates) [ev])"
    and "initiators (callback ev d) = initiators d"
    and "stop_requested (callback ev d) \<longleftrightarrow>
           stop_requested d \<or> (ev = InitiatorTerminates \<and> Suc t = length (initiators d))"
proof -
  have t1: "unat (terminatedInitiators d + 1) = Suc t" if "ev = InitiatorTerminates"
    using assms that by (simp add: unat_word_ariths)
  show "unat (terminatedInitiators (callback ev d))
           = t + length (filter (\<lambda>e. e = InitiatorTerminates) [ev])"
    using assms(1) t1
    by (cases ev)
      (simp_all add: callback_def termianteInitiator_def transactionFinished_def
        sc_stop_def emit_def Let_def)
  show "initiators (callback ev d) = initiators d"
    by (cases ev)
      (simp_all add: callback_def termianteInitiator_def transactionFinished_def
        sc_stop_def emit_def Let_def)
  show "stop_requested (callback ev d) \<longleftrightarrow>
           stop_requested d \<or> (ev = InitiatorTerminates \<and> Suc t = length (initiators d))"
    using t1
    by (cases ev)
      (auto simp: callback_def termianteInitiator_def transactionFinished_def
        sc_stop_def emit_def Let_def)
qed

lemma run_delta_count:
  assumes "unat (terminatedInitiators d) = t"
    and "t + length (filter (\<lambda>e. e = InitiatorTerminates) evs) < 2 ^ 32"
  shows "unat (terminatedInitiators (run_delta evs d))
           = t + length (filter (\<lambda>e. e = InitiatorTerminates) evs) \<and>
         initiators (run_delta evs d) = initiators d \<and>
         (stop_requested (run_delta evs d) \<longleftrightarrow>
            stop_requested d \<or>
            (t < length (initiators d) \<and>
             length (initiators d) \<le> t + length (filter (\<lambda>e. e = InitiatorTerminates) evs)))"
  using assms
proof (induction evs arbitrary: d t)
  case Nil
  then show ?case by auto
next
  case (Cons ev evs)
  let ?one = "length (filter (\<lambda>e. e = InitiatorTerminates) [ev])"
  let ?k = "length (filter (\<lambda>e. e = InitiatorTerminates) evs)"
  let ?d' = "callback ev d"
  have split: "length (filter (\<lambda>e. e = InitiatorTerminates) (ev # evs)) = ?one + ?k"
    by simp
  have small: "t + ?one < 2 ^ 32" "(t + ?one) + ?k < 2 ^ 32"
    using Cons.prems(2) unfolding split by simp_all
  note cb = callback_count [OF Cons.prems(1) small(1)]
  note ih = Cons.IH [OF cb(1) small(2)]
  have one: "?one = (if ev = InitiatorTerminates then 1 else 0)"
    by simp
  show ?case
    unfolding split run_delta.simps
    using ih cb(2,3) one by (auto simp: split: if_splits)
qed

lemma sc_start_stop:
  assumes "\<not> stop_requested d" and "unat (terminatedInitiators d) = t"
    and "t + completions deltas < 2 ^ 32"
  shows "stop_requested (sc_start deltas d) \<longleftrightarrow>
           t < length (initiators d) \<and> length (initiators d) \<le> t + completions deltas"
  using assms
proof (induction deltas arbitrary: d t)
  case Nil
  then show ?case by (simp add: completions_def)
next
  case (Cons delta deltas)
  let ?k1 = "length (filter (\<lambda>e. e = InitiatorTerminates) delta)"
  let ?d' = "run_delta delta d"
  let ?N = "length (initiators d)"
  have split: "completions (delta # deltas) = ?k1 + completions deltas"
    by (simp add: completions_def)
  have small: "t + ?k1 < 2 ^ 32" "(t + ?k1) + completions deltas < 2 ^ 32"
    using Cons.prems(3) unfolding split by simp_all
  from run_delta_count [OF Cons.prems(2) small(1)] Cons.prems(1)
  have d': "unat (terminatedInitiators ?d') = t + ?k1" "initiators ?d' = initiators d"
    "stop_requested ?d' \<longleftrightarrow> t < ?N \<and> ?N \<le> t + ?k1"
    by simp_all
  show ?case
  proof (cases "stop_requested ?d'")
    case True
    then show ?thesis
      using d'(3) unfolding split by (simp add: Let_def)
  next
    case False
    from Cons.IH [OF False d'(1) small(2)]
    have "stop_requested (sc_start deltas ?d') \<longleftrightarrow>
        t + ?k1 < ?N \<and> ?N \<le> t + ?k1 + completions deltas"
      by (simp add: d'(2))
    then show ?thesis
      using False d'(3) unfolding split by (auto simp: Let_def)
  qed
qed

lemma termianteInitiator_step:
  "terminatedInitiators (termianteInitiator d) = terminatedInitiators d + 1"
  "initiators (termianteInitiator d) = initiators d"
  "log (termianteInitiator d) =
     (if unat (terminatedInitiators d + 1) = length (initiators d)
      then log d @ [ScStop] else log d)"
  "stop_requested (termianteInitiator d) \<longleftrightarrow>
     stop_requested d \<or> unat (terminatedInitiators d + 1) = length (initiators d)"
  by (simp_all add: termianteInitiator_def sc_stop_def emit_def Let_def)

lemma build_loop_initiators:
  "build_loop requests rd ds cs d = (d', None) \<Longrightarrow>
   length (initiators d') = length (initiators d) + length cs \<and>
   terminatedInitiators d' = terminatedInitiators d \<and>
   stop_requested d' = stop_requested d"
proof (induction cs arbitrary: d)
  case Nil
  then show ?case by simp
next
  case (Cons c cs)
  then show ?case
    by (auto simp: emit_def split: sum.splits)
qed

lemma after_sc_start_log:
  "log (after_sc_start el d) =
     (if stop_requested d then log d @ [Cout (''Simulation took '' @ el @ '' seconds.'')]
      else log d @ [SC_WARNING ''sc_main'' ''Simulation stopped without explicit sc_stop()'',
                    ScStop, Cout (''Simulation took '' @ el @ '' seconds.'')])"
  by (simp add: after_sc_start_def sc_stop_def emit_def)

lemma built_driver:
  assumes "build_loop requests rd ds cs (initial_driver configuration recordable dramSys)
             = (d, None)"
  shows "length (initiators d) = length cs" and "terminatedInitiators d = 0"
    and "\<not> stop_requested d"
  using build_loop_initiators [OF assms] by (simp_all add: initial_driver_def)

lemma sc_main_runs_loop:
  assumes "from_path w (baseConfig_of w argv) (resourceDirectory_of w argv) = Inr configuration"
    and "tracesetup configuration = Some setups"
    and "newDRAMSys w (value_or (DatabaseRecording configuration) False) configuration
           = Inr dramSys"
    and "build_loop (totalRequests w) (resourceDirectory_of w argv) dramSys setups
           (initial_driver configuration (value_or (DatabaseRecording configuration) False)
              dramSys) = (d, None)"
    and "completions (events w) < 2 ^ 32"
  shows "length (initiators d) = length setups"
    and "stop_requested (sc_start (events w) (emit ScStart (emit SetStopMode d))) \<longleftrightarrow>
           0 < length setups \<and> length setups \<le> completions (events w)"
    and "sc_main w argv =
           (log (sc_start (events w) (emit ScStart (emit SetStopMode d))) @
              (if 0 < length setups \<and> length setups \<le> completions (events w) then []
               else [SC_WARNING ''sc_main'' ''Simulation stopped without explicit sc_stop()'',
                     ScStop]) @
              [Cout (''Simulation took '' @ elapsed w @ '' seconds.'')],
            Inr 0)"
proof -
  let ?d = "emit ScStart (emit SetStopMode d)"
  note built = built_driver [OF assms(4)]
  show size: "length (initiators d) = length setups"
    by (rule built(1))
  have start: "\<not> stop_requested ?d" "unat (terminatedInitiators ?d) = 0"
    "length (initiators ?d) = length setups"
    using built by (simp_all add: emit_def)
  from sc_start_stop [OF start(1,2)] assms(5)
  show stop: "stop_requested (sc_start (events w) ?d) \<longleftrightarrow>
           0 < length setups \<and> length setups \<le> completions (events w)"
    by (simp add: start(3))
  have "sc_main w argv = (log (after_sc_start (elapsed w) (sc_start (events w) ?d)), Inr 0)"
    using assms(1-4) by (simp add: sc_main_def simulate_def Let_def)
  then show "sc_main w argv =
           (log (sc_start (events w) ?d) @
              (if 0 < length setups \<and> length setups \<le> completions (events w) then []
               else [SC_WARNING ''sc_main'' ''Simulation stopped without explicit sc_stop()'',
                     ScStop]) @
              [Cout (''Simulation took '' @ elapsed w @ '' seconds.'')],
            Inr 0)"
    using stop by (simp add: after_sc_start_log)
qed

text \<open>
  Claim C7. Every invocation of the termination callback adds one to
  \<open>terminatedInitiators\<close> (an \<open>unsigned int\<close>, so the addition is modulo \<open>2^32\<close>)
  and calls \<open>sc_stop()\<close> in that invocation exactly when the new count equals
  \<open>initiators.size()\<close>. The build loop appends one initiator per entry of
  \<open>tracesetup\<close>, so that size is the number of initiators built. For the event loop
  as a whole: started with the count at zero and fewer than \<open>2^32\<close> completion
  signals, it returns with a stop requested exactly when there is at least one initiator
  and as many completion signals as initiators have arrived. For the driver: when the
  configuration loads and the subsystem and every initiator are built, \<open>sc_main\<close>
  starts the event loop on a driver whose count is zero and whose initiators are those of
  \<open>tracesetup\<close>; the loop returns stopped exactly when there is at least one initiator
  and every one of them has signalled, and \<open>sc_main\<close> then goes on to print the
  elapsed time without a warning; otherwise it warns and forces the stop first.
\<close>

theorem termianteInitiator_counts_and_stops:
  "terminatedInitiators (termianteInitiator d) = terminatedInitiators d + 1 \<and>
   log (termianteInitiator d) =
     (if unat (terminatedInitiators d + 1) = length (initiators d)
      then log d @ [ScStop] else log d) \<and>
   (stop_requested (termianteInitiator d) \<longleftrightarrow>
      stop_requested d \<or> unat (terminatedInitiators d + 1) = length (initiators d)) \<and>
   (\<forall>d'. build_loop requests rd ds cs d = (d', None) \<longrightarrow>
      length (initiators d') = length (initiators d) + length cs) \<and>
   (\<not> stop_requested d \<and> terminatedInitiators d = 0 \<and> completions deltas < 2 ^ 32 \<longrightarrow>
      (stop_requested (sc_start deltas d) \<longleftrightarrow>
         0 < length (initiators d) \<and> length (initiators d) \<le> completions deltas)) \<and>
   (\<forall>configuration setups dramSys built.
      from_path w (baseConfig_of w argv) (resourceDirectory_of w argv) = Inr configuration \<and>
      tracesetup configuration = Some setups \<and>
      newDRAMSys w (value_or (DatabaseRecording configuration) False) configuration
        = Inr dramSys \<and>
      build_loop (totalRequests w) (resourceDirectory_of w argv) dramSys setups
        (initial_driver configuration (value_or (DatabaseRecording configuration) False)
           dramSys) = (built, None) \<and>
      completions (events w) < 2 ^ 32 \<longrightarrow>
        length (initiators built) = length setups \<and>
        terminatedInitiators built = 0 \<and>
        \<not> stop_requested built \<and>
        (stop_requested (sc_start (events w) (emit ScStart (emit SetStopMode built))) \<longleftrightarrow>
           0 < length setups \<and> length setups \<le> completions (events w)) \<and>
        sc_main w argv =
          (log (sc_start (events w) (emit ScStart (emit SetStopMode built))) @
             (if 0 < length setups \<and> length setups \<le> completions (events w) then []
              else [SC_WARNING ''sc_main'' ''Simulation stopped without explicit sc_stop()'',
                    ScStop]) @
             [Cout (''Simulation took '' @ elapsed w @ '' seconds.'')],
           Inr 0))"
proof -
  have loop: "stop_requested (sc_start deltas d) \<longleftrightarrow>
         0 < length (initiators d) \<and> length (initiators d) \<le> completions deltas"
    if "\<not> stop_requested d" "terminatedInitiators d = 0" "completions deltas < 2 ^ 32"
    using sc_start_stop [of d 0 deltas] that by auto
  have callback_and_loop:
    "terminatedInitiators (termianteInitiator d) = terminatedInitiators d + 1 \<and>
     log (termianteInitiator d) =
       (if unat (terminatedInitiators d + 1) = length (initiators d)
        then log d @ [ScStop] else log d) \<and>
     (stop_requested (termianteInitiator d) \<longleftrightarrow>
        stop_requested d \<or> unat (terminatedInitiators d + 1) = length (initiators d)) \<and>
     (\<forall>d'. build_loop requests rd ds cs d = (d', None) \<longrightarrow>
        length (initiators d') = length (initiators d) + length cs) \<and>
     (\<not> stop_requested d \<and> terminatedInitiators d = 0 \<and> completions deltas < 2 ^ 32 \<longrightarrow>
        (stop_requested (sc_start deltas d) \<longleftrightarrow>
           0 < length (initiators d) \<and> length (initiators d) \<le> completions deltas))"
    using termianteInitiator_step [of d] build_loop_initiators [of requests rd ds cs d] loop
    by blast
  have driver: "length (initiators built) = length setups \<and>
        terminatedInitiators built = 0 \<and>
        \<not> stop_requested built \<and>
        (stop_requested (sc_start (events w) (emit ScStart (emit SetStopMode built))) \<longleftrightarrow>
           0 < length setups \<and> length setups \<le> completions (events w)) \<and>
        sc_main w argv =
          (log (sc_start (events w) (emit ScStart (emit SetStopMode built))) @
             (if 0 < length setups \<and> length setups \<le> completions (events w) then []
              else [SC_WARNING ''sc_main'' ''Simulation stopped without explicit sc_stop()'',
                    ScStop]) @
             [Cout (''Simulation took '' @ elapsed w @ '' seconds.'')],
           Inr 0)"
    if "from_path w (baseConfig_of w argv) (resourceDirectory_of w argv) = Inr configuration"
      and "tracesetup configuration = Some setups"
      and "newDRAMSys w (value_or (DatabaseRecording configuration) False) configuration
             = Inr dramSys"
      and "build_loop (totalRequests w) (resourceDirectory_of w argv) dramSys setups
             (initial_driver configuration (value_or (DatabaseRecording configuration) False)
                dramSys) = (built, None)"
      and "completions (events w) < 2 ^ 32"
    for configuration setups dramSys built
    using sc_main_runs_loop [OF that] built_driver [OF that(4)] by (intro conjI)
  show ?thesis
    using callback_and_loop driver by (intro conjI allI impI) (elim conjE, simp_all)
qed

theorem termianteInitiator_counts_and_stops_witness:
  "stop_requested
     (sc_start [[InitiatorTerminates, TransactionFinishes], [InitiatorTerminates]]
        example_driver)
   \<and> \<not> stop_requested (sc_start [[TransactionFinishes, InitiatorTerminates]] example_driver)
   \<and> sc_main example_world_complete [''DRAMSys'']
     = ([NewDRAMSys, NewMemoryManager False,
         NewInitiator (StlPlayerI ''a.stl'' ''res/traces/a.stl'' 100 64 Absolute),
         Bind (StlPlayerI ''a.stl'' ''res/traces/a.stl'' 100 64 Absolute),
         NewInitiator (RowHammerI ''hammer'' 10 100 1 64),
         Bind (RowHammerI ''hammer'' 10 100 1 64),
         SetStopMode, ScStart, LoadBar 1 10, ScStop, LoadBar 2 10,
         Cout ''Simulation took 0.5 seconds.''],
        Inr 0)"
proof -
  let ?all = "[[InitiatorTerminates, TransactionFinishes], [InitiatorTerminates]]"
  let ?one = "[[TransactionFinishes, InitiatorTerminates]]"
  have start: "\<not> stop_requested example_driver" "terminatedInitiators example_driver = 0"
    by (simp_all add: example_driver_def)
  have size: "length (initiators example_driver) = 2"
    by (simp add: example_driver_def)
  have count: "completions ?all = 2" "completions ?one = 1"
    by (simp_all add: completions_def)
  have few: "completions ?all < 2 ^ 32" "completions ?one < 2 ^ 32"
    unfolding count by simp_all
  have "stop_requested (sc_start ?all example_driver) \<longleftrightarrow>
      0 < length (initiators example_driver) \<and>
      length (initiators example_driver) \<le> completions ?all"
    using termianteInitiator_counts_and_stops [where d = example_driver and deltas = ?all]
      start few(1) by blast
  moreover have "stop_requested (sc_start ?one example_driver) \<longleftrightarrow>
      0 < length (initiators example_driver) \<and>
      length (initiators example_driver) \<le> completions ?one"
    using termianteInitiator_counts_and_stops [where d = example_driver and deltas = ?one]
      start few(2) by blast
  ultimately have loops: "stop_requested (sc_start ?all example_driver)"
    "\<not> stop_requested (sc_start ?one example_driver)"
    unfolding size count by simp_all
  let ?w = example_world_complete
  let ?argv = "[''DRAMSys'']"
  let ?setups = "[TracePlayer ''a.stl'' 100, RowHammer ''hammer'' 10 100 1]"
  let ?cfg = "\<lparr>tracesetup = Some ?setups,
               DatabaseRecording = None, SimulationProgressBar = Some True\<rparr>"
  let ?ds = "\<lparr>storeModeIsStore = False, simMemSizeInBytes = 1024, defaultBytesPerBurst = 64\<rparr>"
  let ?p = "StlPlayerI ''a.stl'' ''res/traces/a.stl'' 100 64 Absolute"
  let ?h = "RowHammerI ''hammer'' 10 100 1 64"
  let ?d = "\<lparr>initiators = [?p, ?h], terminatedInitiators = 0, totalTransactions = 10,
             transactionsFinished = 0, progressBar = True, stop_requested = False,
             log = [NewDRAMSys, NewMemoryManager False, NewInitiator ?p, Bind ?p,
                    NewInitiator ?h, Bind ?h]\<rparr>"
  have rd: "resourceDirectory_of ?w ?argv = ''res''"
    by (simp add: example_world_complete_def example_world_def resourceDirectory_of_def)
  have bc: "baseConfig_of ?w ?argv = ''res/ddr4-example.json''"
    by (simp add: example_world_complete_def example_world_def baseConfig_of_def
        resourceDirectory_of_def path_append_def)
  have h1: "from_path ?w (baseConfig_of ?w ?argv) (resourceDirectory_of ?w ?argv) = Inr ?cfg"
    unfolding rd bc by (simp add: example_world_complete_def example_world_def)
  have h2: "tracesetup ?cfg = Some ?setups"
    by simp
  have h3: "newDRAMSys ?w (value_or (DatabaseRecording ?cfg) False) ?cfg = Inr ?ds"
    by (simp add: example_world_complete_def example_world_def)
  have ext: "extension ''res/traces/a.stl'' = ''.stl''"
    by (simp add: extension_def filename_def)
  have h4: "build_loop (totalRequests ?w) (resourceDirectory_of ?w ?argv) ?ds ?setups
              (initial_driver ?cfg (value_or (DatabaseRecording ?cfg) False) ?ds) = (?d, None)"
    unfolding rd
    by (simp add: example_world_complete_def example_world_def initial_driver_def value_or_def
        build_initiator_def path_append_def TRACE_DIRECTORY_def ext emit_def Let_def)
  have ev: "events ?w = [[TransactionFinishes, InitiatorTerminates],
                         [InitiatorTerminates, TransactionFinishes]]"
    by (simp add: example_world_complete_def)
  have k: "completions (events ?w) = 2"
    unfolding ev by (simp add: completions_def)
  have h5: "completions (events ?w) < 2 ^ 32"
    unfolding k by simp
  have el: "elapsed ?w = ''0.5''"
    by (simp add: example_world_complete_def example_world_def)
  have loop_log: "log (sc_start (events ?w) (emit ScStart (emit SetStopMode ?d)))
      = log ?d @ [SetStopMode, ScStart, LoadBar 1 10, ScStop, LoadBar 2 10]"
    unfolding ev
    by (simp add: emit_def callback_def termianteInitiator_def transactionFinished_def
        sc_stop_def Let_def)
  from termianteInitiator_counts_and_stops [where w = ?w and argv = ?argv] h1 h2 h3 h4 h5
  have "sc_main ?w ?argv =
          (log (sc_start (events ?w) (emit ScStart (emit SetStopMode ?d))) @
             (if 0 < length ?setups \<and> length ?setups \<le> completions (events ?w) then []
              else [SC_WARNING ''sc_main'' ''Simulation stopped without explicit sc_stop()'',
                    ScStop]) @
             [Cout (''Simulation took '' @ elapsed ?w @ '' seconds.'')],
           Inr 0)"
    by blast
  then have "sc_main ?w ?argv
     = ([NewDRAMSys, NewMemoryManager False, NewInitiator ?p, Bind ?p, NewInitiator ?h, Bind ?h,
         SetStopMode, ScStart, LoadBar 1 10, ScStop, LoadBar 2 10,
         Cout ''Simulation took 0.5 seconds.''],
        Inr 0)"
    unfolding loop_log k el by simp
  with loops show ?thesis by blast
qed

subsection \<open>After the event loop\<close>

text \<open>
  Claim C8. When the configuration loads, the subsystem and every initiator are built,
  and the event loop returns without a stop having been requested, \<open>sc_main\<close> emits
  the warning \<open>sc_main: Simulation stopped without explicit sc_stop()\<close> (a warning, so
  the run goes on), calls \<open>sc_stop()\<close>, prints the elapsed time and returns 0.
\<close>

theorem sc_main_warns_when_loop_drains:
  assumes "from_path w (baseConfig_of w argv) (resourceDirectory_of w argv) = Inr configuration"
    and "tracesetup configuration = Some setups"
    and "newDRAMSys w (value_or (DatabaseRecording configuration) False) configuration
           = Inr dramSys"
    and "build_loop (totalRequests w) (resourceDirectory_of w argv) dramSys setups
           (initial_driver configuration (value_or (DatabaseRecording configuration) False)
              dramSys) = (d, None)"
    and "\<not> stop_requested (sc_start (events w) (emit ScStart (emit SetStopMode d)))"
  shows "sc_main w argv =
           (log (sc_start (events w) (emit ScStart (emit SetStopMode d))) @
              [SC_WARNING ''sc_main'' ''Simulation stopped without explicit sc_stop()'',
               ScStop,
               Cout (''Simulation took '' @ elapsed w @ '' seconds.'')],
            Inr 0)"
  using assms
  by (simp add: sc_main_def simulate_def after_sc_start_log Let_def)

theorem sc_main_warns_when_loop_drains_witness:
  "sc_main example_world [''DRAMSys'']
     = ([NewDRAMSys, NewMemoryManager False,
         NewInitiator (StlPlayerI ''a.stl'' ''res/traces/a.stl'' 100 64 Absolute),
         Bind (StlPlayerI ''a.stl'' ''res/traces/a.stl'' 100 64 Absolute),
         NewInitiator (RowHammerI ''hammer'' 10 100 1 64),
         Bind (RowHammerI ''hammer'' 10 100 1 64),
         SetStopMode, ScStart, LoadBar 1 10, LoadBar 2 10,
         SC_WARNING ''sc_main'' ''Simulation stopped without explicit sc_stop()'',
         ScStop, Cout ''Simulation took 0.5 seconds.''],
        Inr 0)"
proof -
  let ?argv = "[''DRAMSys'']"
  let ?cfg = "\<lparr>tracesetup = Some [TracePlayer ''a.stl'' 100, RowHammer ''hammer'' 10 100 1],
               DatabaseRecording = None, SimulationProgressBar = Some True\<rparr>"
  let ?ds = "\<lparr>storeModeIsStore = False, simMemSizeInBytes = 1024, defaultBytesPerBurst = 64\<rparr>"
  let ?p = "StlPlayerI ''a.stl'' ''res/traces/a.stl'' 100 64 Absolute"
  let ?h = "RowHammerI ''hammer'' 10 100 1 64"
  let ?d = "\<lparr>initiators = [?p, ?h], terminatedInitiators = 0, totalTransactions = 10,
             transactionsFinished = 0, progressBar = True, stop_requested = False,
             log = [NewDRAMSys, NewMemoryManager False, NewInitiator ?p, Bind ?p,
                    NewInitiator ?h, Bind ?h]\<rparr>"
  have rd: "resourceDirectory_of example_world ?argv = ''res''"
    by (simp add: example_world_def resourceDirectory_of_def)
  have bc: "baseConfig_of example_world ?argv = ''res/ddr4-example.json''"
    by (simp add: example_world_def baseConfig_of_def resourceDirectory_of_def path_append_def)
  have h1: "from_path example_world (baseConfig_of example_world ?argv)
              (resourceDirectory_of example_world ?argv) = Inr ?cfg"
    unfolding rd bc by (simp add: example_world_def)
  have h2: "tracesetup ?cfg = Some [TracePlayer ''a.stl'' 100, RowHammer ''hammer'' 10 100 1]"
    by simp
  have h3: "newDRAMSys example_world (value_or (DatabaseRecording ?cfg) False) ?cfg = Inr ?ds"
    by (simp add: example_world_def)
  have ext: "extension ''res/traces/a.stl'' = ''.stl''"
    by (simp add: extension_def filename_def)
  have h4: "build_loop (totalRequests example_world) (resourceDirectory_of example_world ?argv)
              ?ds [TracePlayer ''a.stl'' 100, RowHammer ''hammer'' 10 100 1]
              (initial_driver ?cfg (value_or (DatabaseRecording ?cfg) False) ?ds) = (?d, None)"
    unfolding rd
    by (simp add: example_world_def initial_driver_def value_or_def build_initiator_def
        path_append_def TRACE_DIRECTORY_def ext emit_def Let_def)
  have run: "sc_start (events example_world) (emit ScStart (emit SetStopMode ?d))
      = ?d\<lparr>terminatedInitiators := 1, transactionsFinished := 2,
            log := log ?d @ [SetStopMode, ScStart, LoadBar 1 10, LoadBar 2 10]\<rparr>"
    by (simp add: example_world_def emit_def callback_def termianteInitiator_def
        transactionFinished_def)
  have h5: "\<not> stop_requested (sc_start (events example_world) (emit ScStart (emit SetStopMode ?d)))"
    unfolding run by simp
  show ?thesis
    unfolding sc_main_warns_when_loop_drains [OF h1 h2 h3 h4 h5] run
    by (simp add: example_world_def)
qed

subsection \<open>A configuration without initiators\<close>

text \<open>
  Claim C9. When the loaded configuration has no \<open>tracesetup\<close>, \<open>sc_main\<close> ends in
  the fatal report \<open>Simulator: No traffic initiators specified\<close> with nothing done
  before it: no subsystem, no memory manager, no initiator, no simulation start.
\<close>

theorem sc_main_fatal_without_tracesetup:
  assumes "from_path w (baseConfig_of w argv) (resourceDirectory_of w argv) = Inr configuration"
    and "tracesetup configuration = None"
  shows "sc_main w argv = ([], Inl (SC_FATAL ''Simulator'' ''No traffic initiators specified''))"
  using assms by (simp add: sc_main_def Let_def)

theorem sc_main_fatal_without_tracesetup_witness:
  "sc_main example_world [''DRAMSys'', ''empty.json'']
     = ([], Inl (SC_FATAL ''Simulator'' ''No traffic initiators specified''))"
proof -
  have "from_path example_world
          (baseConfig_of example_world [''DRAMSys'', ''empty.json''])
          (resourceDirectory_of example_world [''DRAMSys'', ''empty.json''])
        = Inr \<lparr>tracesetup = None, DatabaseRecording = None, SimulationProgressBar = None\<rparr>"
    by (simp add: example_world_def baseConfig_of_def resourceDirectory_of_def)
  from sc_main_fatal_without_tracesetup [OF this] show ?thesis by simp
qed

subsection \<open>Trace players\<close>

lemma build_initiator_matches:
  "build_initiator rd m dl c = Inr i \<Longrightarrow> player_matches_extension i"
  by (cases c) (auto simp: build_initiator_def player_matches_extension_def Let_def
      split: if_splits)

lemma build_loop_log:
  "build_loop requests rd ds cs d = (d', r) \<Longrightarrow>
   \<forall>i. NewInitiator i \<in> set (log d) \<longrightarrow> player_matches_extension i \<Longrightarrow>
   \<forall>i. NewInitiator i \<in> set (log d') \<longrightarrow> player_matches_extension i"
proof (induction cs arbitrary: d)
  case Nil
  then show ?case by simp
next
  case (Cons c cs)
  show ?case
  proof (cases "build_initiator rd (simMemSizeInBytes ds) (defaultBytesPerBurst ds) c")
    case (Inl e)
    then show ?thesis using Cons.prems by simp
  next
    case (Inr j)
    let ?d = "(emit (Bind j) (emit (NewInitiator j) d))
               \<lparr>initiators := initiators d @ [j],
                totalTransactions := totalTransactions d + requests j\<rparr>"
    have "build_loop requests rd ds cs ?d = (d', r)"
      using Cons.prems(1) Inr by simp
    moreover have "\<forall>i. NewInitiator i \<in> set (log ?d) \<longrightarrow> player_matches_extension i"
      using Cons.prems(2) build_initiator_matches [OF Inr] by (auto simp: emit_def)
    ultimately show ?thesis by (rule Cons.IH)
  qed
qed

lemma run_delta_log:
  "NewInitiator i \<in> set (log (run_delta evs d)) \<longleftrightarrow> NewInitiator i \<in> set (log d)"
proof (induction evs arbitrary: d)
  case Nil
  show ?case by simp
next
  case (Cons ev evs)
  show ?case
    by (cases ev)
      (simp_all add: Cons.IH callback_def termianteInitiator_def transactionFinished_def
        sc_stop_def emit_def Let_def)
qed

lemma sc_start_log:
  "NewInitiator i \<in> set (log (sc_start deltas d)) \<longleftrightarrow> NewInitiator i \<in> set (log d)"
  by (induction deltas arbitrary: d) (simp_all add: Let_def run_delta_log)

lemma simulate_log:
  "NewInitiator i \<in> set (fst (simulate w d)) \<longleftrightarrow> NewInitiator i \<in> set (log d)"
  by (simp add: simulate_def Let_def after_sc_start_log sc_start_log emit_def)

lemma sc_main_players:
  "NewInitiator i \<in> set (fst (sc_main w argv)) \<Longrightarrow> player_matches_extension i"
proof -
  assume a: "NewInitiator i \<in> set (fst (sc_main w argv))"
  show ?thesis
  proof (cases "from_path w (baseConfig_of w argv) (resourceDirectory_of w argv)")
    case (Inl e)
    then show ?thesis using a by (simp add: sc_main_def Let_def)
  next
    case cfg: (Inr configuration)
    show ?thesis
    proof (cases "tracesetup configuration")
      case None
      then show ?thesis using a cfg by (simp add: sc_main_def Let_def)
    next
      case (Some setups)
      let ?rec = "value_or (DatabaseRecording configuration) False"
      show ?thesis
      proof (cases "newDRAMSys w ?rec configuration")
        case (Inl e)
        then show ?thesis using a cfg Some by (simp add: sc_main_def Let_def)
      next
        case (Inr dramSys)
        obtain d r where b: "build_loop (totalRequests w) (resourceDirectory_of w argv) dramSys
            setups (initial_driver configuration ?rec dramSys) = (d, r)"
          by (cases "build_loop (totalRequests w) (resourceDirectory_of w argv) dramSys
            setups (initial_driver configuration ?rec dramSys)") blast
        have "\<forall>i. NewInitiator i \<in> set (log (initial_driver configuration ?rec dramSys))
            \<longrightarrow> player_matches_extension i"
          by (simp add: initial_driver_def)
        from build_loop_log [OF b this]
        have inv: "NewInitiator i \<in> set (log d) \<longrightarrow> player_matches_extension i"
          by blast
        have "NewInitiator i \<in> set (log d)"
          using a cfg Some Inr b
          by (cases r) (simp_all add: sc_main_def Let_def simulate_log)
        with inv show ?thesis by blast
      qed
    qed
  qed
qed

text \<open>
  Claim C10. For a trace player the trace type depends on the extension of the trace
  path alone: \<open>.stl\<close> gives an absolute-time player, \<open>.rstl\<close> a relative-time
  player, and any other extension ends in the fatal report that names it. Hence every
  initiator that a run of \<open>sc_main\<close> constructs agrees with its file extension.
\<close>

theorem trace_type_from_extension:
  assumes "tracePath = path_append (path_append resourceDirectory TRACE_DIRECTORY) name"
  shows "(extension tracePath = ''.stl'' \<longrightarrow>
            build_initiator resourceDirectory memorySize dataLength (TracePlayer name clkMhz)
              = Inr (StlPlayerI name tracePath clkMhz dataLength Absolute)) \<and>
         (extension tracePath = ''.rstl'' \<longrightarrow>
            build_initiator resourceDirectory memorySize dataLength (TracePlayer name clkMhz)
              = Inr (StlPlayerI name tracePath clkMhz dataLength Relative)) \<and>
         (extension tracePath \<noteq> ''.stl'' \<and> extension tracePath \<noteq> ''.rstl'' \<longrightarrow>
            build_initiator resourceDirectory memorySize dataLength (TracePlayer name clkMhz)
              = Inl (SC_FATAL ''Simulator''
                       (extension tracePath @ '' is not a valid trace format.''))) \<and>
         (\<forall>i. NewInitiator i \<in> set (fst (sc_main w argv)) \<longrightarrow> player_matches_extension i)"
  using assms sc_main_players [of _ w argv]
  by (auto simp: build_initiator_def Let_def)

theorem trace_type_from_extension_witness:
  "build_initiator ''res'' 1024 64 (TracePlayer ''a.stl'' 100)
     = Inr (StlPlayerI ''a.stl'' ''res/traces/a.stl'' 100 64 Absolute) \<and>
   build_initiator ''res'' 1024 64 (TracePlayer ''b.rstl'' 100)
     = Inr (StlPlayerI ''b.rstl'' ''res/traces/b.rstl'' 100 64 Relative) \<and>
   build_initiator ''res'' 1024 64 (TracePlayer ''c.txt'' 100)
     = Inl (SC_FATAL ''Simulator'' ''.txt is not a valid trace format.'')"
proof -
  have p: "''res/traces/a.stl'' = path_append (path_append ''res'' TRACE_DIRECTORY) ''a.stl''"
    "''res/traces/b.rstl'' = path_append (path_append ''res'' TRACE_DIRECTORY) ''b.rstl''"
    "''res/traces/c.txt'' = path_append (path_append ''res'' TRACE_DIRECTORY) ''c.txt''"
    by (simp_all add: path_append_def TRACE_DIRECTORY_def)
  have e: "extension ''res/traces/a.stl'' = ''.stl''"
    "extension ''res/traces/b.rstl'' = ''.rstl''"
    "extension ''res/traces/c.txt'' = ''.txt''"
    by (simp_all add: extension_def filename_def)
  show ?thesis
    using trace_type_from_extension [OF p(1), of 1024 64 100]
      trace_type_from_extension [OF p(2), of 1024 64 100]
      trace_type_from_extension [OF p(3), of 1024 64 100]
    by (simp add: e)
qed

section \<open>Properties of the refresh manager\<close>

text \<open>
  The theorems of this section are about the member functions as the spec describes
  them; a reachable state is what a sequence of calls makes of a manager that the
  constructor has returned.
\<close>

subsection \<open>The flexibility counter stays within its bounds\<close>

lemma repay_deadline_fields [simp]:
  "activatedBanks (repay_deadline now m) = activatedBanks m"
  "sleeping (repay_deadline now m) = sleeping m"
  "nextCommand (repay_deadline now m) = nextCommand m"
  "flexibilityCounter (repay_deadline now m) = flexibilityCounter m"
  "maxPostponed (repay_deadline now m) = maxPostponed m"
  "maxPulledin (repay_deadline now m) = maxPulledin m"
  "refreshManagement (repay_deadline now m) = refreshManagement m"
  "refreshInterval (repay_deadline now m) = refreshInterval m"
  by (simp_all add: repay_deadline_def)

lemma evaluate_bounds:
  "evaluate now banks asleep pull m = Inr m' \<Longrightarrow> counter_in_bounds m \<Longrightarrow> counter_in_bounds m'"
  by (auto simp: evaluate_def counter_in_bounds_def Let_def split: if_splits)

lemma update_bounds:
  "counter_in_bounds m \<Longrightarrow> counter_in_bounds (update now command m)"
  by (auto simp: update_def counter_in_bounds_def)

lemma step_bounds:
  "step c m = Inr m' \<Longrightarrow> counter_in_bounds m \<Longrightarrow> counter_in_bounds m'"
  by (cases c)
    (auto simp: getNextCommand_def getTimeForNextTrigger_def
      dest: evaluate_bounds intro: update_bounds)

lemma run_bounds:
  "run calls m = Inr m' \<Longrightarrow> counter_in_bounds m \<Longrightarrow> counter_in_bounds m'"
proof (induction calls arbitrary: m)
  case Nil
  then show ?case by simp
next
  case (Cons c calls)
  then show ?case
    by (auto split: sum.splits dest: step_bounds)
qed

lemma new_bounds:
  "new_RefreshManagerAllBank postponed pulledin management interval first = Inr m
   \<Longrightarrow> counter_in_bounds m"
  by (auto simp: new_RefreshManagerAllBank_def member_initialisers_def counter_in_bounds_def
      split: if_splits)

text \<open>
  Claim C1. In every state that a sequence of \<open>evaluate\<close>, \<open>getNextCommand\<close>,
  \<open>update\<close> and \<open>getTimeForNextTrigger\<close> calls reaches from construction,
  \<open>-maxPostponed \<le> flexibilityCounter \<le> maxPulledin\<close>.
\<close>

theorem flexibilityCounter_within_bounds:
  assumes "new_RefreshManagerAllBank postponed pulledin management interval first = Inr m0"
    and "run calls m0 = Inr m"
  shows "- maxPostponed m \<le> flexibilityCounter m \<and> flexibilityCounter m \<le> maxPulledin m"
  using run_bounds [OF assms(2) new_bounds [OF assms(1)]]
  by (simp add: counter_in_bounds_def)

theorem flexibilityCounter_within_bounds_witness:
  "run [Evaluate 100 1 False False, Evaluate 100 1 False False] example_manager
     = Inr (example_manager\<lparr>activatedBanks := 1, flexibilityCounter := - 2\<rparr>) \<and>
   - maxPostponed (example_manager\<lparr>activatedBanks := 1, flexibilityCounter := - 2\<rparr>)
     \<le> flexibilityCounter (example_manager\<lparr>activatedBanks := 1, flexibilityCounter := - 2\<rparr>)"
proof -
  have c: "new_RefreshManagerAllBank 2 1 True 100 100 = Inr example_manager"
    by (simp add: new_RefreshManagerAllBank_def member_initialisers_def example_manager_def)
  have r: "run [Evaluate 100 1 False False, Evaluate 100 1 False False] example_manager
     = Inr (example_manager\<lparr>activatedBanks := 1, flexibilityCounter := - 2\<rparr>)"
    by (simp add: example_manager_def evaluate_def repay_deadline_def Let_def)
  from flexibilityCounter_within_bounds [OF c r] r show ?thesis by blast
qed

subsection \<open>No all-bank refresh is proposed to a busy or sleeping rank\<close>

lemma evaluate_legal:
  "evaluate now banks asleep pull m = Inr m' \<Longrightarrow> proposal_legal m'"
  by (auto simp: evaluate_def proposal_legal_def Let_def split: if_splits)

lemma update_legal:
  "proposal_legal m \<Longrightarrow> proposal_legal (update now command m)"
  by (auto simp: update_def proposal_legal_def)

lemma step_legal:
  "step c m = Inr m' \<Longrightarrow> proposal_legal m \<Longrightarrow> proposal_legal m'"
  by (cases c)
    (auto simp: getNextCommand_def getTimeForNextTrigger_def
      dest: evaluate_legal intro: update_legal)

lemma run_legal:
  "run calls m = Inr m' \<Longrightarrow> proposal_legal m \<Longrightarrow> proposal_legal m'"
proof (induction calls arbitrary: m)
  case Nil
  then show ?case by simp
next
  case (Cons c calls)
  then show ?case
    by (auto split: sum.splits dest: step_legal)
qed

lemma new_legal:
  "new_RefreshManagerAllBank postponed pulledin management interval first = Inr m
   \<Longrightarrow> proposal_legal m"
  by (auto simp: new_RefreshManagerAllBank_def member_initialisers_def proposal_legal_def
      split: if_splits)

text \<open>
  Claim C2. In every reachable state, the cached proposal that \<open>getNextCommand\<close>
  returns is not \<open>REFRESH_ALL_BANK\<close> while the activated-bank count is above zero or
  the sleeping flag is set.
\<close>

theorem no_refresh_proposed_while_busy_or_asleep:
  assumes "new_RefreshManagerAllBank postponed pulledin management interval first = Inr m0"
    and "run calls m0 = Inr m"
  shows "\<not> (fst (getNextCommand m) = REFRESH_ALL_BANK \<and> (0 < activatedBanks m \<or> sleeping m))"
  using run_legal [OF assms(2) new_legal [OF assms(1)]]
  by (auto simp: proposal_legal_def getNextCommand_def)

theorem no_refresh_proposed_while_busy_or_asleep_witness:
  "fst (getNextCommand (example_manager\<lparr>nextCommand := REFRESH_ALL_BANK\<rparr>)) = REFRESH_ALL_BANK \<and>
   activatedBanks (example_manager\<lparr>nextCommand := REFRESH_ALL_BANK\<rparr>) = 0 \<and>
   \<not> sleeping (example_manager\<lparr>nextCommand := REFRESH_ALL_BANK\<rparr>)"
proof -
  let ?m = "example_manager\<lparr>nextCommand := REFRESH_ALL_BANK\<rparr>"
  have c: "new_RefreshManagerAllBank 2 1 True 100 100 = Inr example_manager"
    by (simp add: new_RefreshManagerAllBank_def member_initialisers_def example_manager_def)
  have r: "run [Evaluate 40 3 True False, Evaluate 100 0 False False, GetNextCommand]
             example_manager = Inr ?m"
    by (simp add: example_manager_def evaluate_def repay_deadline_def Let_def
        getNextCommand_def)
  have p: "fst (getNextCommand ?m) = REFRESH_ALL_BANK"
    by (simp add: getNextCommand_def)
  from no_refresh_proposed_while_busy_or_asleep [OF c r] p
  have "\<not> (0 < activatedBanks ?m \<or> sleeping ?m)" by blast
  with p show ?thesis by (simp add: word_neq_0_conv [symmetric])
qed

subsection \<open>A due refresh that cannot issue\<close>

lemma due_is_regular:
  "timeForNextTrigger (repay_deadline now m) \<le> now \<Longrightarrow> state (repay_deadline now m) = Regular"
  by (cases "state m") (auto simp: repay_deadline_def split: if_splits)

lemma repay_deadline_inputs:
  "repay_deadline now (m\<lparr>activatedBanks := banks, sleeping := asleep, nextCommand := c\<rparr>)
     = (repay_deadline now m)\<lparr>activatedBanks := banks, sleeping := asleep, nextCommand := c\<rparr>"
  by (simp add: repay_deadline_def)

text \<open>
  Claim C3. Let \<open>evaluate\<close> run with the mandatory deadline due and the refresh unable
  to issue (a bank activated, or the rank asleep). With flexibility enabled and
  postponement credit left it returns normally, the counter is one lower, the cached
  proposal is NOP and the deadline is unchanged, so it is due again at every later time.
  With no postponement credit left it ends in the fatal protocol violation.
\<close>

theorem evaluate_postpones_or_fails:
  assumes "deadline_due now m" and "banks \<noteq> 0 \<or> asleep"
  shows "(refreshManagement m \<and> - maxPostponed m < flexibilityCounter m \<longrightarrow>
            (\<exists>m'. evaluate now banks asleep pull m = Inr m' \<and>
                  flexibilityCounter m' = flexibilityCounter m - 1 \<and>
                  fst (getNextCommand m') = NOP \<and>
                  timeForNextTrigger m' = timeForNextTrigger (repay_deadline now m) \<and>
                  (\<forall>later. now \<le> later \<longrightarrow> deadline_due later m'))) \<and>
         (\<not> - maxPostponed m < flexibilityCounter m \<longrightarrow>
            evaluate now banks asleep pull m = Inl ProtocolViolation)"
proof -
  let ?m1 = "(repay_deadline now m)\<lparr>activatedBanks := banks, sleeping := asleep, nextCommand := NOP\<rparr>"
  have due: "timeForNextTrigger (repay_deadline now m) \<le> now"
    using assms(1) by (simp add: deadline_due_def)
  have reg: "state (repay_deadline now m) = Regular"
    using due by (rule due_is_regular)
  have ev: "evaluate now banks asleep pull m =
      (if refreshManagement m \<and> - maxPostponed m < flexibilityCounter m
       then Inr (?m1\<lparr>flexibilityCounter := flexibilityCounter m - 1\<rparr>)
       else Inl ProtocolViolation)"
    using due assms(2) by (auto simp: evaluate_def repay_deadline_inputs Let_def)
  have later: "deadline_due later (?m1\<lparr>flexibilityCounter := flexibilityCounter m - 1\<rparr>)"
    if "now \<le> later" for later
    using due reg that by (simp add: deadline_due_def repay_deadline_def)
  show ?thesis
    using ev later by (simp add: getNextCommand_def)
qed

theorem evaluate_postpones_or_fails_witness:
  "evaluate 100 1 False False example_manager
     = Inr (example_manager\<lparr>activatedBanks := 1, flexibilityCounter := - 1\<rparr>) \<and>
   evaluate 100 0 True False (example_manager\<lparr>flexibilityCounter := - 2\<rparr>)
     = Inl ProtocolViolation"
proof -
  have due: "deadline_due 100 example_manager"
    "deadline_due 100 (example_manager\<lparr>flexibilityCounter := - 2\<rparr>)"
    by (simp_all add: deadline_due_def repay_deadline_def example_manager_def)
  have credit: "refreshManagement example_manager \<and>
      - maxPostponed example_manager < flexibilityCounter example_manager"
    "\<not> - maxPostponed (example_manager\<lparr>flexibilityCounter := - 2\<rparr>)
        < flexibilityCounter (example_manager\<lparr>flexibilityCounter := - 2\<rparr>)"
    by (simp_all add: example_manager_def)
  have busy: "(1 :: 32 word) \<noteq> 0 \<or> False" "(0 :: 32 word) \<noteq> 0 \<or> True"
    by simp_all
  from evaluate_postpones_or_fails [OF due(1) busy(1), of False] credit(1)
  obtain m' where m': "evaluate 100 1 False False example_manager = Inr m'"
    "flexibilityCounter m' = flexibilityCounter example_manager - 1"
    by blast
  have "evaluate 100 1 False False example_manager
     = Inr (example_manager\<lparr>activatedBanks := 1, flexibilityCounter := - 1\<rparr>)"
    by (simp add: example_manager_def evaluate_def repay_deadline_def Let_def)
  moreover from evaluate_postpones_or_fails [OF due(2) busy(2), of False] credit(2)
  have "evaluate 100 0 True False (example_manager\<lparr>flexibilityCounter := - 2\<rparr>)
     = Inl ProtocolViolation"
    by blast
  ultimately show ?thesis by blast
qed

subsection \<open>The two states\<close>

lemma enter_pulled_in:
  assumes "step c m = Inr m'" and "state m = Regular" and "state m' = Pulledin"
  shows "(\<exists>now. c = Update now REFRESH_ALL_BANK \<and> \<not> timeForNextTrigger m \<le> now) \<and>
         nextCommand m = REFRESH_ALL_BANK \<and>
         flexibilityCounter m' = flexibilityCounter m + 1"
proof (cases c)
  case (Evaluate now banks asleep pull)
  then show ?thesis
    using assms
    by (auto simp: evaluate_def repay_deadline_def Let_def split: if_splits)
next
  case GetNextCommand
  then show ?thesis using assms by (auto simp: getNextCommand_def)
next
  case (Update now command)
  then show ?thesis
    using assms by (auto simp: update_def split: if_splits)
next
  case GetTimeForNextTrigger
  then show ?thesis using assms by (auto simp: getTimeForNextTrigger_def)
qed

lemma leave_pulled_in:
  assumes "step c m = Inr m'" and "state m = Pulledin" and "state m' = Regular"
  shows "\<exists>now banks asleep pull. c = Evaluate now banks asleep pull \<and> timeForNextTrigger m \<le> now"
proof (cases c)
  case (Evaluate now banks asleep pull)
  then show ?thesis
    using assms
    by (auto simp: evaluate_def repay_deadline_def Let_def split: if_splits)
next
  case GetNextCommand
  then show ?thesis using assms by (auto simp: getNextCommand_def)
next
  case (Update now command)
  then show ?thesis
    using assms by (auto simp: update_def split: if_splits)
next
  case GetTimeForNextTrigger
  then show ?thesis using assms by (auto simp: getTimeForNextTrigger_def)
qed

lemma evaluate_leaves_pulled_in:
  assumes "state m = Pulledin" and "timeForNextTrigger m \<le> now"
    and "evaluate now banks asleep pull m = Inr m'"
  shows "state m' = Regular"
  using assms by (auto simp: evaluate_def repay_deadline_def Let_def split: if_splits)

text \<open>
  Claim C4. The manager starts in state Regular with the counter at 0. A call takes it
  from Regular to Pulledin only if it is an \<open>update\<close> with \<open>REFRESH_ALL_BANK\<close>,
  the manager's own cached proposal, at a time before the deadline (so the refresh was
  not nominally due), and that call takes one unit of pull-in credit. A call takes it
  from Pulledin back to Regular only if it is an \<open>evaluate\<close> at or after the deadline,
  and every \<open>evaluate\<close> of a pulled-in manager at or after the deadline that returns
  normally does so.
\<close>

theorem state_machine_transitions:
  "state (member_initialisers postponed pulledin management interval) = Regular \<and>
   flexibilityCounter (member_initialisers postponed pulledin management interval) = 0 \<and>
   (\<forall>m0. new_RefreshManagerAllBank postponed pulledin management interval first = Inr m0 \<longrightarrow>
      state m0 = Regular \<and> flexibilityCounter m0 = 0) \<and>
   (\<forall>m'. step c m = Inr m' \<and> state m = Regular \<and> state m' = Pulledin \<longrightarrow>
      (\<exists>t. c = Update t REFRESH_ALL_BANK \<and> \<not> timeForNextTrigger m \<le> t) \<and>
      nextCommand m = REFRESH_ALL_BANK \<and>
      flexibilityCounter m' = flexibilityCounter m + 1) \<and>
   (\<forall>m'. step c m = Inr m' \<and> state m = Pulledin \<and> state m' = Regular \<longrightarrow>
      (\<exists>t banks asleep pull. c = Evaluate t banks asleep pull \<and> timeForNextTrigger m \<le> t)) \<and>
   (\<forall>m'. state m = Pulledin \<and> timeForNextTrigger m \<le> now \<and>
         evaluate now banks asleep pull m = Inr m' \<longrightarrow> state m' = Regular)"
proof -
  have "\<forall>m0. new_RefreshManagerAllBank postponed pulledin management interval first = Inr m0 \<longrightarrow>
      state m0 = Regular \<and> flexibilityCounter m0 = 0"
    by (auto simp: new_RefreshManagerAllBank_def member_initialisers_def split: if_splits)
  moreover have "state (member_initialisers postponed pulledin management interval) = Regular"
    "flexibilityCounter (member_initialisers postponed pulledin management interval) = 0"
    by (simp_all add: member_initialisers_def)
  moreover have "\<forall>m'. step c m = Inr m' \<and> state m = Regular \<and> state m' = Pulledin \<longrightarrow>
      (\<exists>t. c = Update t REFRESH_ALL_BANK \<and> \<not> timeForNextTrigger m \<le> t) \<and>
      nextCommand m = REFRESH_ALL_BANK \<and>
      flexibilityCounter m' = flexibilityCounter m + 1"
    using enter_pulled_in [of c m] by simp
  moreover have "\<forall>m'. step c m = Inr m' \<and> state m = Pulledin \<and> state m' = Regular \<longrightarrow>
      (\<exists>t banks asleep pull. c = Evaluate t banks asleep pull \<and> timeForNextTrigger m \<le> t)"
    using leave_pulled_in [of c m] by simp
  moreover have "\<forall>m'. state m = Pulledin \<and> timeForNextTrigger m \<le> now \<and>
         evaluate now banks asleep pull m = Inr m' \<longrightarrow> state m' = Regular"
    using evaluate_leaves_pulled_in [of m now banks asleep pull] by simp
  ultimately show ?thesis
    by (intro conjI)
qed

theorem state_machine_transitions_witness:
  "step (Update 50 REFRESH_ALL_BANK) (example_manager\<lparr>nextCommand := REFRESH_ALL_BANK\<rparr>)
     = Inr (example_manager\<lparr>nextCommand := REFRESH_ALL_BANK, state := Pulledin,
                            flexibilityCounter := 1\<rparr>) \<and>
   flexibilityCounter (example_manager\<lparr>nextCommand := REFRESH_ALL_BANK, state := Pulledin,
                            flexibilityCounter := 1\<rparr>)
     = flexibilityCounter (example_manager\<lparr>nextCommand := REFRESH_ALL_BANK\<rparr>) + 1 \<and>
   evaluate 100 0 False False (example_manager\<lparr>state := Pulledin, flexibilityCounter := 1\<rparr>)
     = Inr (example_manager\<lparr>state := Regular, flexibilityCounter := 1,
                            timeForNextTrigger := 200\<rparr>)"
proof -
  let ?m = "example_manager\<lparr>nextCommand := REFRESH_ALL_BANK\<rparr>"
  let ?m' = "example_manager\<lparr>nextCommand := REFRESH_ALL_BANK, state := Pulledin,
                            flexibilityCounter := 1\<rparr>"
  have s: "step (Update 50 REFRESH_ALL_BANK) ?m = Inr ?m'"
    by (simp add: example_manager_def update_def)
  have st: "state ?m = Regular" "state ?m' = Pulledin"
    by (simp_all add: example_manager_def)
  from state_machine_transitions [of 2 1 True 100 100 "Update 50 REFRESH_ALL_BANK" ?m] s st
  have c: "flexibilityCounter ?m' = flexibilityCounter ?m + 1"
    by blast
  have e: "evaluate 100 0 False False (example_manager\<lparr>state := Pulledin, flexibilityCounter := 1\<rparr>)
     = Inr (example_manager\<lparr>state := Regular, flexibilityCounter := 1,
                            timeForNextTrigger := 200\<rparr>)"
    by (simp add: example_manager_def evaluate_def repay_deadline_def Let_def)
  from s c e show ?thesis by blast
qed

subsection \<open>Reading the cached proposal\<close>

lemma evaluate_nothing_due:
  assumes "\<not> deadline_due now m" and "\<not> pull"
  shows "\<exists>m'. evaluate now banks asleep pull m = Inr m' \<and> fst (getNextCommand m') = NOP"
  using assms
  by (simp add: evaluate_def deadline_due_def repay_deadline_inputs Let_def getNextCommand_def)

text \<open>
  Claim C5. \<open>getNextCommand\<close> leaves the manager as it is and returns the cached
  proposal, so a second call, with or without a \<open>getTimeForNextTrigger\<close> in between,
  returns the same command. The proposal of a new manager is NOP, and so is the proposal
  after an \<open>evaluate\<close> that finds no deadline due and pulls no refresh in.
\<close>

theorem getNextCommand_idempotent:
  "snd (getNextCommand m) = m \<and>
   fst (getNextCommand (snd (getNextCommand m))) = fst (getNextCommand m) \<and>
   fst (getNextCommand (snd (getTimeForNextTrigger (snd (getNextCommand m)))))
     = fst (getNextCommand m) \<and>
   fst (getNextCommand m) = nextCommand m \<and>
   fst (getNextCommand (member_initialisers postponed pulledin management interval)) = NOP \<and>
   (\<forall>m0. new_RefreshManagerAllBank postponed pulledin management interval first = Inr m0 \<longrightarrow>
      fst (getNextCommand m0) = NOP) \<and>
   (\<not> deadline_due now m \<and> \<not> pull \<longrightarrow>
      (\<exists>m'. evaluate now banks asleep pull m = Inr m' \<and> fst (getNextCommand m') = NOP))"
proof -
  have "\<forall>m0. new_RefreshManagerAllBank postponed pulledin management interval first = Inr m0 \<longrightarrow>
      fst (getNextCommand m0) = NOP"
    by (auto simp: new_RefreshManagerAllBank_def member_initialisers_def getNextCommand_def
        split: if_splits)
  moreover have "fst (getNextCommand (member_initialisers postponed pulledin management interval)) = NOP"
    by (simp add: member_initialisers_def getNextCommand_def)
  moreover have "snd (getNextCommand m) = m"
    "fst (getNextCommand (snd (getNextCommand m))) = fst (getNextCommand m)"
    "fst (getNextCommand (snd (getTimeForNextTrigger (snd (getNextCommand m)))))
       = fst (getNextCommand m)"
    "fst (getNextCommand m) = nextCommand m"
    by (simp_all add: getNextCommand_def getTimeForNextTrigger_def)
  ultimately show ?thesis
    using evaluate_nothing_due [of now m pull banks asleep] by blast
qed

theorem getNextCommand_idempotent_witness:
  "fst (getNextCommand example_manager) = NOP \<and>
   evaluate 40 0 False False example_manager = Inr example_manager"
proof -
  have c: "new_RefreshManagerAllBank 2 1 True 100 100 = Inr example_manager"
    by (simp add: new_RefreshManagerAllBank_def member_initialisers_def example_manager_def)
  from getNextCommand_idempotent [of example_manager 2 1 True 100 100] c
  have "fst (getNextCommand example_manager) = NOP" by blast
  moreover have "evaluate 40 0 False False example_manager = Inr example_manager"
    by (simp add: example_manager_def evaluate_def repay_deadline_def Let_def)
  ultimately show ?thesis by blast
qed

end
